theory Spec2Isabelle
  imports Complex_Main "HOL-Library.Multiset" "HOL-Library.Char_ord" "HOL-Library.List_Lexorder"
begin

section \<open>Values that \<open>json.load\<close> returns\<close>

text \<open>
  A Python float is a finite binary fraction, a NaN or an infinity. The script only
  compares floats with 0 and 1, and these comparisons are exact, so a finite float is
  modelled by the rational number it denotes. JSON as Python reads it also admits the
  literals \<open>NaN\<close>, \<open>Infinity\<close> and \<open>-Infinity\<close>.
\<close>

datatype pyfloat = Finite rat | NaN | PosInf | NegInf

datatype pyval =
    PyNone
  | PyBool bool
  | PyInt int
  | PyFloat pyfloat
  | PyStr string
  | PyList "pyval list"
  | PyDict "(string \<times> pyval) list"

text \<open>
  A dict is an association list in insertion order; \<open>json.load\<close> has already resolved
  duplicate keys, so the keys of a dict are distinct.
\<close>

datatype pytype = NoneType | Bool_t | Int_t | Float_t | Str_t | List_t | Dict_t

fun type_of :: "pyval \<Rightarrow> pytype" where
  "type_of PyNone = NoneType"
| "type_of (PyBool _) = Bool_t"
| "type_of (PyInt _) = Int_t"
| "type_of (PyFloat _) = Float_t"
| "type_of (PyStr _) = Str_t"
| "type_of (PyList _) = List_t"
| "type_of (PyDict _) = Dict_t"

text \<open>\<open>isinstance(value, float)\<close> and \<open>isinstance(value, int)\<close>; \<open>bool\<close> is a subclass of \<open>int\<close>.\<close>

fun isinstance_float :: "pyval \<Rightarrow> bool" where
  "isinstance_float (PyFloat _) = True"
| "isinstance_float _ = False"

fun isinstance_int :: "pyval \<Rightarrow> bool" where
  "isinstance_int (PyInt _) = True"
| "isinstance_int (PyBool _) = True"
| "isinstance_int _ = False"

text \<open>
  \<open>value < 0\<close> and \<open>value > 1\<close>. Both are only evaluated on a float, an int or a bool
  (the \<open>elif\<close> of line 86 follows the \<open>isinstance\<close> test of line 82); on the other values,
  where Python would raise a TypeError, they are never reached and are given as False.
  Every comparison with a NaN is False.
\<close>

fun lt_zero :: "pyval \<Rightarrow> bool" where
  "lt_zero (PyBool b) = False"
| "lt_zero (PyInt i) = (i < 0)"
| "lt_zero (PyFloat (Finite q)) = (q < 0)"
| "lt_zero (PyFloat NegInf) = True"
| "lt_zero _ = False"

fun gt_one :: "pyval \<Rightarrow> bool" where
  "gt_one (PyBool b) = False"
| "gt_one (PyInt i) = (i > 1)"
| "gt_one (PyFloat (Finite q)) = (q > 1)"
| "gt_one (PyFloat PosInf) = True"
| "gt_one _ = False"

section \<open>The extracted archive, images and the manifest\<close>

text \<open>
  What \<open>np.asarray(PIL.Image.open(patch))\<close> gives: the array's dtype (by its numpy
  name), its shape, and the sorted distinct pixel values that \<open>np.unique\<close> returns.
\<close>

record ndarray =
  dtype :: string
  shape :: "nat list"
  unique :: "int list"

text \<open>
  A regular file is modelled by what the two decoders of the script make of its bytes:
  \<open>json.load\<close> (lines 46 to 55) and \<open>PIL.Image.open\<close> (lines 145 and 157, where
  PermissionError and UnidentifiedImageError are caught together).
\<close>

datatype json_load = UnicodeDecodeError | JSONDecodeError | Loaded pyval

datatype image_open = Not_an_image | Image ndarray

datatype content = Content (as_json: json_load) (as_image: image_open)

datatype node = File content | Dir "(string \<times> node) list"

text \<open>A directory lists its entries in the order the file system returns them.\<close>

type_synonym tree = "(string \<times> node) list"

text \<open>\<open>Path.is_file\<close> and \<open>Path.is_dir\<close> of \<open>tempdir / name\<close>.\<close>

fun is_file :: "node option \<Rightarrow> bool" where
  "is_file (Some (File _)) = True"
| "is_file _ = False"

fun is_dir :: "node option \<Rightarrow> bool" where
  "is_dir (Some (Dir _)) = True"
| "is_dir _ = False"

text \<open>
  The uncaught exceptions that end the process. The last five are what \<open>ZipFile\<close> and
  \<open>extractall\<close> raise, besides BadZipFile, on a file that is not a sound ZIP container.
\<close>

datatype exn =
    FileNotFoundError | IsADirectoryError | AttributeError | KeyError
  | OSError | Unicode_decode_error | Zlib_error | NotImplementedError | RuntimeError

fun open_file :: "node option \<Rightarrow> exn + content" where
  "open_file None = Inl FileNotFoundError"
| "open_file (Some (Dir _)) = Inl IsADirectoryError"
| "open_file (Some (File c)) = Inr c"

text \<open>\<open>case_path.glob("*.png")\<close>: the entries of the directory whose name ends in \<open>.png\<close>.\<close>

definition matches_png :: "string \<Rightarrow> bool" where
  "matches_png name = (4 \<le> length name \<and> drop (length name - 4) name = ''.png'')"

fun glob_png :: "node option \<Rightarrow> (string \<times> node) list" where
  "glob_png (Some (Dir es)) = filter (\<lambda>e. matches_png (fst e)) es"
| "glob_png _ = []"

text \<open>
  What the path of an archive holds: nothing that is a regular file; a file on which
  \<open>ZipFile\<close> or \<open>extractall\<close> raises BadZipFile, the one exception that line 26
  catches; a file on which they raise another exception; or a ZIP file with the tree it
  extracts to.
\<close>

datatype archive = Not_a_file | Bad_zip | Unzip_raises exn | Extracts tree

text \<open>
  \<open>expected_patches.json\<close> in the working directory: absent, or an object from the case
  number, as a string, to the list of file names of its patches.
\<close>

type_synonym manifest = "(string \<times> string list) list option"

section \<open>The interpreter and the libraries\<close>

text \<open>
  Three things the script's output depends on are fixed by the Python process and not
  by the script: the order in which a set of strings is iterated (it follows the hashes
  of the strings, which are salted per process), the order in which a set of numpy
  integers is iterated, and whether \<open>roc_auc_score\<close> of scikit-learn raises (the message
  of the exception, or None when it returns a score).
\<close>

record runtime =
  set_iter :: "string set \<Rightarrow> string list"
  int_set_iter :: "int set \<Rightarrow> int list"
  roc_auc_score :: "int list \<Rightarrow> pyval list \<Rightarrow> string option"

text \<open>An iteration order lists every element of a finite set once.\<close>

definition enumerates :: "('a set \<Rightarrow> 'a list) \<Rightarrow> bool" where
  "enumerates h = (\<forall>S. finite S \<longrightarrow> set (h S) = S \<and> distinct (h S))"

text \<open>
  A score the metric can rank: a bool, the ints 0 and 1, or a finite float in [0, 1].
\<close>

fun unit_interval :: "pyval \<Rightarrow> bool" where
  "unit_interval (PyBool b) = True"
| "unit_interval (PyInt i) = (0 \<le> i \<and> i \<le> 1)"
| "unit_interval (PyFloat (Finite q)) = (0 \<le> q \<and> q \<le> 1)"
| "unit_interval _ = False"

text \<open>
  The contract of \<open>roc_auc_score\<close> that the script relies on: with both classes among
  the labels, as many scores as labels and every score a number in [0, 1], it returns.
\<close>

definition auc_contract :: "(int list \<Rightarrow> pyval list \<Rightarrow> string option) \<Rightarrow> bool" where
  "auc_contract roc = (\<forall>gt scores.
     0 \<in> set gt \<and> 1 \<in> set gt \<and> set gt \<subseteq> {0, 1} \<and> length gt = length scores \<and>
     (\<forall>v \<in> set scores. unit_interval v) \<longrightarrow> roc gt scores = None)"

section \<open>The lines the script prints\<close>

datatype line =
    Checking_archive string
  | Archive_not_found
  | Zip_corrupted
  | Classification_missing
  | Classification_is_directory
  | Classification_invalid_unicode
  | Classification_invalid_json
  | Missing_keys "string list"
  | Unexpected_keys "string list"
  | Bad_type string pytype
  | Out_of_range string pyval
  | Auc_error string
  | Classification_valid
  | Folder_missing string
  | Folder_is_file string
  | Missing_patches string "string list"
  | Unexpected_patches string "string list"
  | Bad_dtype string string
  | Bad_shape string "nat list"
  | Unexpected_classes string "int list"
  | Invalid_png string
  | Segmentation_valid
  | Submission_valid

datatype severity = INFO | ERROR | WARNING | SUCCESS

definition tab :: char where
  "tab = CHR 0x09"

definition newline :: char where
  "newline = CHR 0x0A"

text \<open>The text of a line up to its first interpolated field: all of it for a fixed line.\<close>

fun literal :: "line \<Rightarrow> string" where
  "literal (Checking_archive p) = newline # ''Checking archive: ''"
| "literal Archive_not_found =
     tab # ''ERROR:  '' @ tab # ''The archive could not be found. Please check the path that you supplied.''"
| "literal Zip_corrupted = tab # ''ERROR:  '' @ tab # ''This ZIP file is corrupted and cannot be opened.''"
| "literal Classification_missing = tab # ''ERROR:  '' @ tab # ''classification.json is missing.''"
| "literal Classification_is_directory = tab # ''ERROR:  '' @ tab # ''classification.json is a directory.''"
| "literal Classification_invalid_unicode =
     tab # ''ERROR:  '' @ tab # ''classification.json contains invalid unicode characters.''"
| "literal Classification_invalid_json =
     tab # ''ERROR:  '' @ tab # ''classification.json is not a valid JSON file.''
       @ ''http://json.parser.online.fr/ can tell you what the issue is...''"
| "literal (Missing_keys ks) = tab # ''ERROR:  '' @ tab # ''classification.json is missing the following keys ''"
| "literal (Unexpected_keys ks) =
     tab # ''WARNING:'' @ tab # ''classification.json contains the following unexpected keys ''"
| "literal (Bad_type k t) = tab # ''ERROR:  '' @ tab # ''In classification.json, key ''"
| "literal (Out_of_range k v) = tab # ''WARNING:'' @ tab # ''In classification.json, key ''"
| "literal (Auc_error e) = tab # ''ERROR:  '' @ tab # ''Unexpected error when computing the AUC ''"
| "literal Classification_valid = tab # ''SUCCESS:'' @ tab # ''classification.json is valid!''"
| "literal (Folder_missing c) = tab # ''WARNING:'' @ tab # ''Folder for case ''"
| "literal (Folder_is_file c) = tab # ''ERROR:  '' @ tab # ''Folder for case ''"
| "literal (Missing_patches c ps) = tab # ''ERROR:  '' @ [tab]"
| "literal (Unexpected_patches c ps) = tab # ''WARNING:'' @ [tab]"
| "literal (Bad_dtype p d) = tab # ''ERROR:'' @ [tab]"
| "literal (Bad_shape p s) = tab # ''ERROR:  '' @ [tab]"
| "literal (Unexpected_classes p cs) = tab # ''WARNING:'' @ [tab]"
| "literal (Invalid_png p) = tab # ''ERROR:  '' @ [tab]"
| "literal Segmentation_valid = tab # ''SUCCESS:'' @ tab # ''No errors in the segmentations files!''"
| "literal Submission_valid = tab # ''SUCCESS:'' @ tab # ''The submission is completely valid!''"

text \<open>The severity is the word that follows the leading tab.\<close>

definition severity :: "line \<Rightarrow> severity" where
  "severity l =
     (if take 6 (tl (literal l)) = ''ERROR:'' then ERROR
      else if take 8 (tl (literal l)) = ''WARNING:'' then WARNING
      else if take 8 (tl (literal l)) = ''SUCCESS:'' then SUCCESS
      else INFO)"

section \<open>Printing, flags and uncaught exceptions\<close>

text \<open>
  A piece of the script yields the lines it printed and either the exception that it
  let escape or whether it set the error flag of its category.
\<close>

type_synonym result = "line list \<times> (exn + bool)"

definition returns :: "line list \<times> bool \<Rightarrow> result" where
  "returns r = (fst r, Inr (snd r))"

text \<open>
  One piece after another: the second runs unless the first raised, the lines follow
  each other and the flag is set if either piece set it.
\<close>

fun and_then :: "result \<Rightarrow> result \<Rightarrow> result" where
  "and_then (ls, Inl x) r = (ls, Inl x)"
| "and_then (ls, Inr e) (ls', Inl x) = (ls @ ls', Inl x)"
| "and_then (ls, Inr e) (ls', Inr e') = (ls @ ls', Inr (e \<or> e'))"

text \<open>A \<open>for\<close> loop whose body may print, set the flag or raise.\<close>

fun for_each :: "('a \<Rightarrow> result) \<Rightarrow> 'a list \<Rightarrow> result" where
  "for_each body [] = ([], Inr False)"
| "for_each body (x # xs) = and_then (body x) (for_each body xs)"

text \<open>The closing \<open>if not any_..._error: print(SUCCESS)\<close> of a category.\<close>

fun finish :: "line \<Rightarrow> result \<Rightarrow> result" where
  "finish success (ls, Inl x) = (ls, Inl x)"
| "finish success (ls, Inr e) = (ls @ (if \<not> e then [success] else []), Inr e)"

section \<open>Checking \<open>classification.json\<close> (lines 32 to 102)\<close>

definition expected_key_list :: "string list" where
  "expected_key_list =
     [''FoSJZXMf'', ''QWbE525I'', ''rXnHCUvh'', ''QgiI3ZjZ'', ''mEbHuWpr'', ''QALoeYtI'', ''ekSUm2cR'',
      ''IWHbSh5u'', ''nDEUHXwj'', ''JMo8YkLs'', ''DsRY1rxV'', ''eRLJEqUc'', ''I5eHKnl9'', ''TE4z9RQi'',
      ''pijPwLr3'', ''JEKP6PPk'', ''VkwcFVCj'', ''gXwu1b4V'', ''OuM2aSiS'', ''2pT4GFzn'', ''9jNhMVzm'',
      ''Jf22jnO2'', ''DZVCFC0G'', ''yUTVZuRr'', ''XS7iESy5'', ''ABLVABMT'', ''usRRkq2C'', ''J9cGjQjN'',
      ''DokmCXM1'', ''tUw6bIr8'', ''VcspD4KF'', ''ft5ALWqc'', ''4Hjkjs0i'', ''9bwsptDH'', ''AlTjYbsA'',
      ''tJgvMquY'', ''x2cYOIty'', ''NUYZ3vYd'', ''F62qzus2'', ''BHTUesDo'']"

text \<open>The set literal of lines 60 to 65.\<close>

definition expected_keys :: "string set" where
  "expected_keys = set expected_key_list"

text \<open>Lines 68 to 77: the keys that are missing and the keys that are not expected.\<close>

definition check_keys :: "runtime \<Rightarrow> string set \<Rightarrow> line list \<times> bool" where
  "check_keys rt keys_found =
     (let missing_keys = expected_keys - keys_found;
          unexpected_keys = keys_found - expected_keys
      in ((if missing_keys \<noteq> {} then [Missing_keys (set_iter rt missing_keys)] else []) @
          (if unexpected_keys \<noteq> {} then [Unexpected_keys (set_iter rt unexpected_keys)] else []),
          missing_keys \<noteq> {} \<or> unexpected_keys \<noteq> {}))"

text \<open>Lines 82 to 89: the type and the range of one value.\<close>

definition check_value :: "string \<Rightarrow> pyval \<Rightarrow> line list \<times> bool" where
  "check_value key v =
     (if \<not> isinstance_float v \<and> \<not> isinstance_int v then ([Bad_type key (type_of v)], True)
      else if lt_zero v \<or> gt_one v then ([Out_of_range key v], True)
      else ([], False))"

text \<open>Lines 80 and 81: \<open>for key in keys_found: value = predictions[key]\<close>.\<close>

definition check_values :: "(string \<times> pyval) list \<Rightarrow> string list \<Rightarrow> result" where
  "check_values predictions keys =
     for_each (\<lambda>key. case map_of predictions key of
                        None \<Rightarrow> ([], Inl KeyError)
                      | Some v \<Rightarrow> returns (check_value key v)) keys"

text \<open>\<open>[1] + [0] * (len(predictions) - 1)\<close>\<close>

definition dummy_gt :: "nat \<Rightarrow> int list" where
  "dummy_gt n = 1 # replicate (n - 1) 0"

text \<open>
  Lines 57 to 99, on what \<open>json.load\<close> returned. Only a dict has \<open>keys()\<close>: on any other
  value line 66 raises an AttributeError that nothing catches.
\<close>

fun check_predictions :: "runtime \<Rightarrow> pyval \<Rightarrow> result" where
  "check_predictions rt (PyDict predictions) =
     (let keys_found = set (map fst predictions) in
      case and_then (returns (check_keys rt keys_found))
                    (check_values predictions (set_iter rt keys_found)) of
        (ls, Inl x) \<Rightarrow> (ls, Inl x)
      | (ls, Inr any_classification_error) \<Rightarrow>
          if length predictions > 2 \<and> \<not> any_classification_error then
            (case roc_auc_score rt (dummy_gt (length predictions)) (map snd predictions) of
               Some e \<Rightarrow> (ls @ [Auc_error e], Inr True)
             | None \<Rightarrow> (ls, Inr any_classification_error))
          else (ls, Inr any_classification_error))"
| "check_predictions rt _ = ([], Inl AttributeError)"

definition check_classification :: "runtime \<Rightarrow> tree \<Rightarrow> result" where
  "check_classification rt tempdir =
     (let path_classification = map_of tempdir ''classification.json'' in
      finish Classification_valid
        (if \<not> is_file path_classification then ([Classification_missing], Inr True)
         else if is_dir path_classification then ([Classification_is_directory], Inr True)
         else (case open_file path_classification of
                 Inl x \<Rightarrow> ([], Inl x)
               | Inr f \<Rightarrow>
                   (case as_json f of
                      UnicodeDecodeError \<Rightarrow> ([Classification_invalid_unicode], Inr True)
                    | JSONDecodeError \<Rightarrow> ([Classification_invalid_json], Inr True)
                    | Loaded predictions \<Rightarrow> check_predictions rt predictions))))"

section \<open>Checking the segmentations (lines 106 to 162)\<close>

definition cases :: nat where
  "cases = 6"

definition expected_classes :: "int list" where
  "expected_classes = [1..10]"

definition expected_shape :: "nat list" where
  "expected_shape = [3000, 3000]"

text \<open>\<open>str(case)\<close> and \<open>f"wns_case_{case:02d}"\<close>\<close>

definition digit :: "nat \<Rightarrow> char" where
  "digit n = ''0123456789'' ! n"

fun str :: "nat \<Rightarrow> string" where
  "str n = (if n < 10 then [digit n] else str (n div 10) @ [digit (n mod 10)])"

declare str.simps [simp del]

definition case_str :: "nat \<Rightarrow> string" where
  "case_str n = ''wns_case_'' @ replicate (2 - length (str n)) (CHR ''0'') @ str n"

text \<open>Lines 147 to 156: the dtype, the shape and the pixel values of a decoded patch.\<close>

definition check_array :: "runtime \<Rightarrow> string \<Rightarrow> ndarray \<Rightarrow> line list \<times> bool" where
  "check_array rt name array =
     (let unexpected_classes = set (unique array) - set expected_classes
      in ((if dtype array \<noteq> ''uint8'' then [Bad_dtype name (dtype array)] else []) @
          (if shape array \<noteq> expected_shape then [Bad_shape name (shape array)] else []) @
          (if unexpected_classes \<noteq> {}
           then [Unexpected_classes name (int_set_iter rt unexpected_classes)] else []),
          dtype array \<noteq> ''uint8'' \<or> shape array \<noteq> expected_shape \<or> unexpected_classes \<noteq> {}))"

text \<open>
  Lines 143 to 159. \<open>glob\<close> also yields a directory whose name ends in \<open>.png\<close>; opening
  it raises an IsADirectoryError, which the \<open>except\<close> clause does not list.
\<close>

fun check_patch :: "runtime \<Rightarrow> string \<times> node \<Rightarrow> result" where
  "check_patch rt (name, Dir es) = ([], Inl IsADirectoryError)"
| "check_patch rt (name, File f) =
     (case as_image f of
        Not_an_image \<Rightarrow> ([Invalid_png name], Inr True)
      | Image array \<Rightarrow> returns (check_array rt name array))"

text \<open>
  Lines 130 to 139: the patches that are missing and the patches that are not expected.
  The warning of line 137 interpolates \<open>missing_patches\<close>.
\<close>

definition check_patch_names :: "runtime \<Rightarrow> string \<Rightarrow> string set \<Rightarrow> string set \<Rightarrow> line list \<times> bool" where
  "check_patch_names rt c expected_patches patches_found =
     (let missing_patches = expected_patches - patches_found;
          unexpected_patches = patches_found - expected_patches
      in ((if missing_patches \<noteq> {}
           then [Missing_patches c (set_iter rt missing_patches)] else []) @
          (if unexpected_patches \<noteq> {}
           then [Unexpected_patches c (set_iter rt missing_patches)] else []),
          missing_patches \<noteq> {} \<or> unexpected_patches \<noteq> {}))"

text \<open>Lines 116 to 159, one case.\<close>

definition check_case :: "runtime \<Rightarrow> (string \<times> string list) list \<Rightarrow> tree \<Rightarrow> nat \<Rightarrow> result" where
  "check_case rt all_expected_patches tempdir n =
     (let case_path = map_of tempdir (case_str n) in
      if \<not> is_dir case_path then ([Folder_missing (case_str n)], Inr True)
      else if is_file case_path then ([Folder_is_file (case_str n)], Inr True)
      else
        (case map_of all_expected_patches (str n) of
           None \<Rightarrow> ([], Inl KeyError)
         | Some names \<Rightarrow>
             and_then
               (returns (check_patch_names rt (case_str n) (set names)
                           (set (map fst (glob_png case_path)))))
               (for_each (check_patch rt) (glob_png case_path))))"

text \<open>Line 109 opens the manifest once per archive, after the classification check.\<close>

definition check_segmentation :: "runtime \<Rightarrow> manifest \<Rightarrow> tree \<Rightarrow> result" where
  "check_segmentation rt manifest tempdir =
     (case manifest of
        None \<Rightarrow> ([], Inl FileNotFoundError)
      | Some all_expected_patches \<Rightarrow>
          finish Segmentation_valid
            (for_each (check_case rt all_expected_patches tempdir) [1..<1 + cases]))"

section \<open>The loop over the archives (lines 11 to 165)\<close>

definition check_archive ::
  "runtime \<Rightarrow> manifest \<Rightarrow> (string \<Rightarrow> archive) \<Rightarrow> string \<Rightarrow> line list \<times> (exn + unit)" where
  "check_archive rt manifest fs archive_path =
     (case fs archive_path of
        Not_a_file \<Rightarrow> ([Checking_archive archive_path, Archive_not_found], Inr ())
      | Bad_zip \<Rightarrow> ([Checking_archive archive_path, Zip_corrupted], Inr ())
      | Unzip_raises x \<Rightarrow> ([Checking_archive archive_path], Inl x)
      | Extracts tempdir \<Rightarrow>
          (case check_classification rt tempdir of
             (ls, Inl x) \<Rightarrow> (Checking_archive archive_path # ls, Inl x)
           | (ls, Inr any_classification_error) \<Rightarrow>
               (case check_segmentation rt manifest tempdir of
                  (ls', Inl x) \<Rightarrow> (Checking_archive archive_path # ls @ ls', Inl x)
                | (ls', Inr any_segmentation_error) \<Rightarrow>
                    (Checking_archive archive_path # ls @ ls' @
                       (if \<not> any_classification_error \<and> \<not> any_segmentation_error
                        then [Submission_valid] else []),
                     Inr ()))))"

text \<open>
  The whole run: what is printed, and the exception that ended the process, if any.
\<close>

fun main :: "runtime \<Rightarrow> manifest \<Rightarrow> (string \<Rightarrow> archive) \<Rightarrow> string list \<Rightarrow> line list \<times> exn option" where
  "main rt manifest fs [] = ([], None)"
| "main rt manifest fs (archive_path # argv) =
     (case check_archive rt manifest fs archive_path of
        (ls, Inl x) \<Rightarrow> (ls, Some x)
      | (ls, Inr u) \<Rightarrow>
          (case main rt manifest fs argv of (ls', r) \<Rightarrow> (ls @ ls', r)))"

text \<open>
  A runtime for the examples: sets are iterated in sorted order and the metric raises
  exactly outside its contract.
\<close>

definition sorted_runtime :: runtime where
  "sorted_runtime =
     \<lparr>set_iter = sorted_list_of_set,
      int_set_iter = sorted_list_of_set,
      roc_auc_score = (\<lambda>gt scores.
        if 0 \<in> set gt \<and> 1 \<in> set gt \<and> list_all unit_interval scores then None
        else Some ''ValueError'')\<rparr>"


section \<open>Example inputs and auxiliary notions\<close>

definition good_patch :: content where
  "good_patch = Content JSONDecodeError
     (Image \<lparr>dtype = ''uint8'', shape = [3000, 3000], unique = [1, 2]\<rparr>)"

text \<open>
  A file system for the examples: a file that \<open>ZipFile\<close> rejects with BadZipFile, a file
  with the signature of a ZIP end record and a central directory offset that points
  nowhere, on which \<open>ZipFile\<close> raises an OSError, and one submission.
\<close>

definition disk :: "tree \<Rightarrow> string \<Rightarrow> archive" where
  "disk tempdir p =
     (if p = ''broken.zip'' then Bad_zip
      else if p = ''damaged.zip'' then Unzip_raises OSError
      else if p = ''submission.zip'' then Extracts tempdir
      else Not_a_file)"

text \<open>A classification that gives every expected key the score one half.\<close>

definition half_scores :: "(string \<times> pyval) list" where
  "half_scores = map (\<lambda>k. (k, PyFloat (Finite (1 / 2)))) expected_key_list"

definition classification_file :: "(string \<times> pyval) list \<Rightarrow> string \<times> node" where
  "classification_file d = (''classification.json'', File (Content (Loaded (PyDict d)) Not_an_image))"

definition classification_array :: "string \<times> node" where
  "classification_array = (''classification.json'', File (Content (Loaded (PyList [])) Not_an_image))"

text \<open>
  A patch as the challenge wants it: an image of dtype uint8 and shape (3000, 3000)
  whose pixel values all lie in 1 to 10.
\<close>

fun valid_patch :: "node \<Rightarrow> bool" where
  "valid_patch (File f) =
     (case as_image f of
        Image a \<Rightarrow> dtype a = ''uint8'' \<and> shape a = [3000, 3000] \<and> set (unique a) \<subseteq> {1..10}
      | Not_an_image \<Rightarrow> False)"
| "valid_patch (Dir es) = False"

definition case_folder :: node where
  "case_folder = Dir [(''patch_0.png'', File good_patch), (''notes.txt'', File good_patch)]"

definition valid_tree :: tree where
  "valid_tree =
     [classification_file half_scores,
      (''wns_case_01'', case_folder), (''wns_case_02'', case_folder), (''wns_case_03'', case_folder),
      (''wns_case_04'', case_folder), (''wns_case_05'', case_folder), (''wns_case_06'', case_folder)]"

definition valid_manifest :: "(string \<times> string list) list" where
  "valid_manifest =
     [(''1'', [''patch_0.png'']), (''2'', [''patch_0.png'']), (''3'', [''patch_0.png'']),
      (''4'', [''patch_0.png'']), (''5'', [''patch_0.png'']), (''6'', [''patch_0.png''])]"

text \<open>
  A finding is a line of severity ERROR or WARNING. A piece of the script is balanced
  when it prints findings only and has set the flag exactly if it printed one.
\<close>

definition finding :: "line \<Rightarrow> bool" where
  "finding l = (severity l = ERROR \<or> severity l = WARNING)"

definition balanced :: "result \<Rightarrow> bool" where
  "balanced r = ((\<forall>l \<in> set (fst r). finding l) \<and> (\<forall>e. snd r = Inr e \<longrightarrow> e = (fst r \<noteq> [])))"





section \<open>Facts about the building blocks\<close>

lemma severity_simps [simp]:
  "severity (Checking_archive p) = INFO"
  "severity Archive_not_found = ERROR"
  "severity Zip_corrupted = ERROR"
  "severity Classification_missing = ERROR"
  "severity Classification_is_directory = ERROR"
  "severity Classification_invalid_unicode = ERROR"
  "severity Classification_invalid_json = ERROR"
  "severity (Missing_keys ks) = ERROR"
  "severity (Unexpected_keys ks) = WARNING"
  "severity (Bad_type k t) = ERROR"
  "severity (Out_of_range k v) = WARNING"
  "severity (Auc_error e) = ERROR"
  "severity Classification_valid = SUCCESS"
  "severity (Folder_missing c) = WARNING"
  "severity (Folder_is_file c) = ERROR"
  "severity (Missing_patches c ps) = ERROR"
  "severity (Unexpected_patches c ps) = WARNING"
  "severity (Bad_dtype n d) = ERROR"
  "severity (Bad_shape n sh) = ERROR"
  "severity (Unexpected_classes n cs) = WARNING"
  "severity (Invalid_png n) = ERROR"
  "severity Segmentation_valid = SUCCESS"
  "severity Submission_valid = SUCCESS"
  by (simp_all add: severity_def)

lemma str_digits:
  "str (Suc 0) = ''1''" "str 2 = ''2''" "str 3 = ''3''" "str 4 = ''4''" "str 5 = ''5''" "str 6 = ''6''"
  by (simp_all add: str.simps digit_def)

lemma case_str_simps:
  "case_str (Suc 0) = ''wns_case_01''" "case_str 2 = ''wns_case_02''" "case_str 3 = ''wns_case_03''"
  "case_str 4 = ''wns_case_04''" "case_str 5 = ''wns_case_05''" "case_str 6 = ''wns_case_06''"
  by (simp_all add: case_str_def str_digits)

lemma range_cases: "[1..<1 + cases] = [1, 2, 3, 4, 5, 6]"
  by (simp add: cases_def upt_rec)

lemma for_each_quiet:
  assumes "\<And>x. x \<in> set xs \<Longrightarrow> body x = ([], Inr False)"
  shows "for_each body xs = ([], Inr False)"
  using assms by (induction xs) auto

lemma for_each_returns:
  assumes "\<And>x. x \<in> set xs \<Longrightarrow> body x = returns (g x)"
  shows "for_each body xs = (concat (map (\<lambda>x. fst (g x)) xs), Inr (\<exists>x \<in> set xs. snd (g x)))"
  using assms by (induction xs) (auto simp: returns_def)

lemma lookup_returns:
  assumes "key \<in> fst ` set d"
  shows "(case map_of d key of None \<Rightarrow> ([], Inl KeyError) | Some v \<Rightarrow> returns (check_value key v))
         = returns (check_value key (the (map_of d key)))"
proof -
  from assms have "map_of d key \<noteq> None" by (simp add: map_of_eq_None_iff)
  then show ?thesis by (cases "map_of d key") simp_all
qed

lemma check_values_returns:
  assumes "set ks \<subseteq> fst ` set d"
  shows "check_values d ks =
           (concat (map (\<lambda>k. fst (check_value k (the (map_of d k)))) ks),
            Inr (\<exists>k \<in> set ks. snd (check_value k (the (map_of d k)))))"
  unfolding check_values_def
  by (rule for_each_returns, rule lookup_returns) (use assms in blast)

subsection \<open>Findings and flags\<close>

lemma balanced_Nil: "balanced ([], Inr False)"
  by (simp add: balanced_def)

lemma balanced_Inl: "balanced ([], Inl x)"
  by (simp add: balanced_def)

lemma balanced_one: "finding l \<Longrightarrow> balanced ([l], Inr True)"
  by (simp add: balanced_def)

lemma balanced_and_then: "balanced a \<Longrightarrow> balanced b \<Longrightarrow> balanced (and_then a b)"
  by (induction a b rule: and_then.induct) (auto simp: balanced_def)

lemma balanced_for_each:
  assumes "\<And>x. x \<in> set xs \<Longrightarrow> balanced (body x)"
  shows "balanced (for_each body xs)"
  using assms by (induction xs) (auto intro!: balanced_and_then balanced_Nil)

lemma balanced_check_keys: "balanced (returns (check_keys rt K))"
  by (auto simp: balanced_def returns_def check_keys_def Let_def finding_def)

lemma balanced_check_value: "balanced (returns (check_value k v))"
  by (auto simp: balanced_def returns_def check_value_def finding_def)

lemma balanced_lookup:
  "balanced (case map_of d k of None \<Rightarrow> ([], Inl KeyError) | Some v \<Rightarrow> returns (check_value k v))"
  by (cases "map_of d k") (simp_all add: balanced_Inl balanced_check_value)

lemma balanced_check_values: "balanced (check_values d ks)"
  unfolding check_values_def by (rule balanced_for_each) (rule balanced_lookup)

lemma balanced_check_predictions: "balanced (check_predictions rt p)"
proof (cases "\<exists>d. p = PyDict d")
  case True
  then obtain d where p: "p = PyDict d" ..
  define r where "r = and_then (returns (check_keys rt (set (map fst d))))
                               (check_values d (set_iter rt (set (map fst d))))"
  have b: "balanced r"
    unfolding r_def by (intro balanced_and_then balanced_check_keys balanced_check_values)
  obtain ls s where r: "r = (ls, s)" by (cases r)
  have "check_predictions rt p =
          (case r of (ls, Inl x) \<Rightarrow> (ls, Inl x)
           | (ls, Inr e) \<Rightarrow>
               if length d > 2 \<and> \<not> e then
                 (case roc_auc_score rt (dummy_gt (length d)) (map snd d) of
                    Some m \<Rightarrow> (ls @ [Auc_error m], Inr True)
                  | None \<Rightarrow> (ls, Inr e))
               else (ls, Inr e))"
    by (simp add: p r_def Let_def)
  then show ?thesis
    using b r by (cases s) (auto simp: balanced_def finding_def split: option.splits)
next
  case False
  then have "check_predictions rt p = ([], Inl AttributeError)" by (cases p) auto
  then show ?thesis by (simp add: balanced_def)
qed

lemma balanced_check_array: "balanced (returns (check_array rt n a))"
  by (auto simp: balanced_def returns_def check_array_def Let_def finding_def)

lemma balanced_check_patch: "balanced (check_patch rt e)"
proof (cases e)
  case (Pair n nd)
  show ?thesis
  proof (cases nd)
    case (File f)
    then show ?thesis
      using Pair
      by (cases "as_image f") (simp_all add: balanced_check_array balanced_one finding_def)
  next
    case (Dir es)
    then show ?thesis using Pair by (simp add: balanced_Inl)
  qed
qed

lemma balanced_check_patch_names: "balanced (returns (check_patch_names rt c E F))"
  by (auto simp: balanced_def returns_def check_patch_names_def Let_def finding_def)

lemma balanced_check_case: "balanced (check_case rt m t n)"
proof -
  have p: "balanced (for_each (check_patch rt) es)" for es
    by (rule balanced_for_each) (rule balanced_check_patch)
  show ?thesis
  proof (cases "map_of m (str n)")
    case None
    then show ?thesis
      by (simp add: check_case_def Let_def balanced_one balanced_Inl finding_def)
  next
    case (Some names)
    then show ?thesis
      by (simp add: check_case_def Let_def balanced_one finding_def balanced_and_then
            balanced_check_patch_names p)
  qed
qed

lemma finish_balanced:
  assumes "balanced r" "finish s r = (ls, Inr e)" "severity s = SUCCESS"
  shows "e = (\<exists>l \<in> set ls. severity l = ERROR \<or> severity l = WARNING) \<and> (s \<in> set ls) = (\<not> e)"
proof -
  obtain ls0 s0 where r: "r = (ls0, s0)" by (cases r)
  show ?thesis
  proof (cases s0)
    case (Inl x)
    with assms(2) r show ?thesis by simp
  next
    case (Inr e0)
    with assms(2) r have e: "e = e0" and ls: "ls = ls0 @ (if \<not> e0 then [s] else [])"
      by auto
    from assms(1) r Inr have f: "\<forall>l \<in> set ls0. finding l" and e0: "e0 = (ls0 \<noteq> [])"
      by (auto simp: balanced_def)
    have ns: "\<not> finding s" using assms(3) by (simp add: finding_def)
    show ?thesis
    proof (cases e0)
      case True
      then have "ls0 \<noteq> []" using e0 by simp
      then have "hd ls0 \<in> set ls0" by simp
      with f have "\<exists>l \<in> set ls0. severity l = ERROR \<or> severity l = WARNING"
        unfolding finding_def by blast
      moreover have "s \<notin> set ls0" using f ns by blast
      ultimately show ?thesis using True e ls by simp
    next
      case False
      then have "ls0 = []" using e0 by simp
      then show ?thesis using False e ls assms(3) by simp
    qed
  qed
qed

lemma balanced_classification_body:
  "balanced
     (if \<not> is_file pc then ([Classification_missing], Inr True)
      else if is_dir pc then ([Classification_is_directory], Inr True)
      else (case open_file pc of
              Inl x \<Rightarrow> ([], Inl x)
            | Inr f \<Rightarrow>
                (case as_json f of
                   UnicodeDecodeError \<Rightarrow> ([Classification_invalid_unicode], Inr True)
                 | JSONDecodeError \<Rightarrow> ([Classification_invalid_json], Inr True)
                 | Loaded predictions \<Rightarrow> check_predictions rt predictions)))"
  by (simp add: balanced_check_predictions balanced_Inl balanced_one finding_def
           split: sum.splits json_load.splits)

subsection \<open>The loop over the archives\<close>

lemma main_append:
  "snd (main rt m fs qs) = None \<Longrightarrow>
   main rt m fs (qs @ rs) = (fst (main rt m fs qs) @ fst (main rt m fs rs), snd (main rt m fs rs))"
  by (induction qs) (auto split: prod.splits sum.splits)

lemma main_no_extract:
  "\<forall>q \<in> set qs. fs q = Not_a_file \<or> fs q = Bad_zip \<Longrightarrow> snd (main rt m fs qs) = None"
  by (induction qs) (auto simp: check_archive_def split: prod.splits)

subsection \<open>Iteration orders\<close>

lemma enumerates_sorted: "enumerates (sorted_list_of_set :: 'a::linorder set \<Rightarrow> 'a list)"
  by (simp add: enumerates_def)


lemma enumerates_set: "enumerates h \<Longrightarrow> finite S \<Longrightarrow> set (h S) = S"
  by (simp add: enumerates_def)


lemma enumerates_singleton:
  assumes "enumerates h"
  shows "h {x} = [x]"
proof -
  have s: "set (h {x}) = {x}" and d: "distinct (h {x})"
    using assms by (simp_all add: enumerates_def)
  show ?thesis
  proof (cases "h {x}")
    case Nil
    with s show ?thesis by simp
  next
    case (Cons y ys)
    with s have y: "y = x" and ys: "set ys \<subseteq> {x}" by auto
    from d Cons y have "x \<notin> set ys" by simp
    with ys have "ys = []" by (cases ys) auto
    with Cons y show ?thesis by simp
  qed
qed

lemma runtime_contracts:
  "enumerates (set_iter sorted_runtime)" "auc_contract (roc_auc_score sorted_runtime)"
  by (auto simp: sorted_runtime_def enumerates_sorted auc_contract_def list_all_iff)

subsection \<open>A valid classification\<close>

lemma finite_expected_keys: "finite expected_keys"
  by (simp add: expected_keys_def)

lemma check_keys_expected: "check_keys rt expected_keys = ([], False)"
  by (simp add: check_keys_def)

lemma check_keys_extra:
  assumes "enumerates (set_iter rt)" "z \<notin> expected_keys"
  shows "check_keys rt (insert z expected_keys) = ([Unexpected_keys [z]], True)"
proof -
  have "expected_keys - insert z expected_keys = {}" by auto
  moreover have "insert z expected_keys - expected_keys = {z}" using assms(2) by auto
  ultimately show ?thesis
    by (simp add: check_keys_def Let_def enumerates_singleton [OF assms(1)])
qed

lemma check_value_unit: "unit_interval v \<Longrightarrow> check_value k v = ([], False)"
  by (induction v rule: unit_interval.induct) (auto simp: check_value_def)

lemma check_values_valid:
  assumes "set ks \<subseteq> fst ` set d" "\<forall>v \<in> snd ` set d. unit_interval v"
  shows "check_values d ks = ([], Inr False)"
proof -
  have "check_value k (the (map_of d k)) = ([], False)" if "k \<in> set ks" for k
  proof -
    from that assms(1) have "map_of d k \<noteq> None" by (auto simp: map_of_eq_None_iff)
    then obtain v where v: "map_of d k = Some v" by auto
    then have "(k, v) \<in> set d" by (rule map_of_SomeD)
    then have "v \<in> snd ` set d" by force
    with assms(2) v show ?thesis by (auto simp: check_value_unit)
  qed
  then show ?thesis by (simp add: check_values_returns [OF assms(1)])
qed

lemma more_than_two:
  assumes "expected_keys \<subseteq> fst ` set d"
  shows "2 < length d"
proof -
  have "{''FoSJZXMf'', ''QWbE525I'', ''rXnHCUvh''} \<subseteq> expected_keys"
    by (simp add: expected_keys_def expected_key_list_def)
  with assms have "{''FoSJZXMf'', ''QWbE525I'', ''rXnHCUvh''} \<subseteq> set (map fst d)" by auto
  then have "card {''FoSJZXMf'', ''QWbE525I'', ''rXnHCUvh''} \<le> card (set (map fst d))"
    by (intro card_mono) simp_all
  moreover have "card {''FoSJZXMf'', ''QWbE525I'', ''rXnHCUvh''} = 3" by simp
  moreover have "card (set (map fst d)) \<le> length (map fst d)" by (rule card_length)
  ultimately show ?thesis by simp
qed

lemma dummy_gt_classes:
  "2 \<le> n \<Longrightarrow> 0 \<in> set (dummy_gt n) \<and> 1 \<in> set (dummy_gt n) \<and> set (dummy_gt n) \<subseteq> {0, 1} \<and>
     length (dummy_gt n) = n"
  by (auto simp: dummy_gt_def)

lemma check_predictions_valid:
  assumes "enumerates (set_iter rt)" "fst ` set d = expected_keys"
    and "\<forall>v \<in> snd ` set d. unit_interval v"
  shows "check_predictions rt (PyDict d) =
           (case roc_auc_score rt (dummy_gt (length d)) (map snd d) of
              Some e \<Rightarrow> ([Auc_error e], Inr True)
            | None \<Rightarrow> ([], Inr False))"
proof -
  have "set (set_iter rt expected_keys) = expected_keys"
    using assms(1) finite_expected_keys by (rule enumerates_set)
  then have "check_values d (set_iter rt expected_keys) = ([], Inr False)"
    using assms(2,3) by (intro check_values_valid) simp_all
  moreover have "2 < length d" using assms(2) by (intro more_than_two) simp
  ultimately show ?thesis
    by (simp add: assms(2) check_keys_expected returns_def split: option.splits)
qed

lemma auc_returns:
  assumes "auc_contract (roc_auc_score rt)" "2 < length d" "\<forall>v \<in> snd ` set d. unit_interval v"
  shows "roc_auc_score rt (dummy_gt (length d)) (map snd d) = None"
proof -
  have "2 \<le> length d" using assms(2) by simp
  from dummy_gt_classes [OF this] assms(3) show ?thesis
    using assms(1) [unfolded auc_contract_def, rule_format, of "dummy_gt (length d)" "map snd d"]
    by simp
qed

lemma classification_of_file:
  assumes "map_of tempdir ''classification.json'' = Some (File f)" "as_json f = Loaded p"
  shows "check_classification rt tempdir = finish Classification_valid (check_predictions rt p)"
  using assms by (simp add: check_classification_def)

subsection \<open>Valid segmentations\<close>

lemma check_patch_valid: "valid_patch (snd e) \<Longrightarrow> check_patch rt e = ([], Inr False)"
proof (cases e)
  case (Pair n nd)
  assume "valid_patch (snd e)"
  with Pair show ?thesis
    by (cases nd)
       (auto simp: check_array_def returns_def expected_classes_def expected_shape_def Let_def
             split: image_open.splits)
qed

lemma check_patch_names_same: "check_patch_names rt c E E = ([], False)"
  by (simp add: check_patch_names_def)

lemma check_case_valid:
  assumes "map_of tempdir (case_str n) = Some (Dir es)" "map_of m (str n) = Some names"
    and "fst ` set (glob_png (Some (Dir es))) = set names"
    and "\<forall>e \<in> set (glob_png (Some (Dir es))). valid_patch (snd e)"
  shows "check_case rt m tempdir n = ([], Inr False)"
proof -
  have "for_each (check_patch rt) (glob_png (Some (Dir es))) = ([], Inr False)"
    by (rule for_each_quiet) (use assms(4) check_patch_valid in blast)
  moreover have "check_patch_names rt (case_str n) (set names)
                   (set (map fst (glob_png (Some (Dir es))))) = ([], False)"
    using assms(3) by (simp only: set_map check_patch_names_same)
  ultimately show ?thesis
    by (simp only: check_case_def Let_def assms(1,2) is_dir.simps is_file.simps option.case
          returns_def fst_conv snd_conv and_then.simps simp_thms if_False if_True append_Nil)
qed

subsection \<open>The same findings under another iteration order\<close>






















section \<open>The claims\<close>

text \<open>
  C1. An archive that is valid throughout: \<open>classification.json\<close> holds an object with
  exactly the expected keys and a score in [0, 1] for each, every case folder is there
  with exactly the patches the manifest names, and every patch is a valid one. Then the
  script prints, after the line that names the archive, the three SUCCESS lines and
  nothing else: no line is an ERROR line and the last line is the one that calls the
  submission completely valid. The iteration order of sets may be any, and the metric
  is taken to honour its contract.
\<close>

theorem valid_archive_succeeds:
  assumes "enumerates (set_iter rt)" and "auc_contract (roc_auc_score rt)"
    and "fs archive_path = Extracts tempdir"
    and "map_of tempdir ''classification.json'' = Some (File f)"
    and "as_json f = Loaded (PyDict predictions)"
    and "set (map fst predictions) = expected_keys"
    and "\<forall>v \<in> set (map snd predictions). unit_interval v"
    and "manifest = Some all_expected_patches"
    and "\<forall>n \<in> set [1..<1 + cases].
           map_of tempdir (case_str n) = Some (Dir (entries n)) \<and>
           map_of all_expected_patches (str n) = Some (names n) \<and>
           set (map fst (glob_png (Some (Dir (entries n))))) = set (names n) \<and>
           (\<forall>e \<in> set (glob_png (Some (Dir (entries n)))). valid_patch (snd e))"
  shows "check_archive rt manifest fs archive_path =
           ([Checking_archive archive_path, Classification_valid, Segmentation_valid,
             Submission_valid], Inr ()) \<and>
         (\<forall>l \<in> set (fst (check_archive rt manifest fs archive_path)). severity l \<noteq> ERROR) \<and>
         literal (last (fst (check_archive rt manifest fs archive_path))) =
           tab # ''SUCCESS:'' @ tab # ''The submission is completely valid!''"
proof -
  have k: "fst ` set predictions = expected_keys" using assms(6) by simp
  have v: "\<forall>v \<in> snd ` set predictions. unit_interval v" using assms(7) by simp
  have "2 < length predictions" using k by (intro more_than_two) simp
  then have "roc_auc_score rt (dummy_gt (length predictions)) (map snd predictions) = None"
    using assms(2) v by (intro auc_returns)
  then have "check_predictions rt (PyDict predictions) = ([], Inr False)"
    unfolding check_predictions_valid [OF assms(1) k v] by simp
  then have c: "check_classification rt tempdir = ([Classification_valid], Inr False)"
    by (simp add: classification_of_file [OF assms(4,5)] del: check_predictions.simps)
  have "check_case rt all_expected_patches tempdir n = ([], Inr False)"
    if "n \<in> set [1..<1 + cases]" for n
  proof -
    from assms(9) that have
      "map_of tempdir (case_str n) = Some (Dir (entries n))"
      "map_of all_expected_patches (str n) = Some (names n)"
      "fst ` set (glob_png (Some (Dir (entries n)))) = set (names n)"
      "\<forall>e \<in> set (glob_png (Some (Dir (entries n)))). valid_patch (snd e)"
      unfolding set_map by blast+
    then show ?thesis by (rule check_case_valid)
  qed
  then have "for_each (check_case rt all_expected_patches tempdir) [1..<1 + cases] = ([], Inr False)"
    by (rule for_each_quiet)
  then have s: "check_segmentation rt manifest tempdir = ([Segmentation_valid], Inr False)"
    by (simp only: check_segmentation_def assms(8) option.case finish.simps if_True append_Nil
          simp_thms)
  have "check_archive rt manifest fs archive_path =
          ([Checking_archive archive_path, Classification_valid, Segmentation_valid,
            Submission_valid], Inr ())"
    by (simp add: check_archive_def assms(3) c s)
  then show ?thesis by simp
qed

theorem valid_archive_succeeds_witness:
  "enumerates (set_iter sorted_runtime) \<and> auc_contract (roc_auc_score sorted_runtime) \<and>
   disk valid_tree ''submission.zip'' = Extracts valid_tree \<and>
   set (map fst half_scores) = expected_keys \<and>
   list_all unit_interval (map snd half_scores) \<and>
   check_archive sorted_runtime (Some valid_manifest) (disk valid_tree) ''submission.zip'' =
     ([Checking_archive ''submission.zip'', Classification_valid, Segmentation_valid,
       Submission_valid], Inr ())"
proof -
  have h3: "disk valid_tree ''submission.zip'' = Extracts valid_tree" by (simp add: disk_def)
  have h4: "map_of valid_tree ''classification.json''
              = Some (File (Content (Loaded (PyDict half_scores)) Not_an_image))"
    by (simp add: valid_tree_def classification_file_def)
  have h5: "as_json (Content (Loaded (PyDict half_scores)) Not_an_image) = Loaded (PyDict half_scores)"
    by simp
  have h6: "set (map fst half_scores) = expected_keys"
    by (simp add: half_scores_def expected_keys_def comp_def)
  have h7: "\<forall>v \<in> set (map snd half_scores). unit_interval v"
    by (simp add: half_scores_def)
  have h9: "\<forall>n \<in> set [1..<1 + cases].
           map_of valid_tree (case_str n)
             = Some (Dir [(''patch_0.png'', File good_patch), (''notes.txt'', File good_patch)]) \<and>
           map_of valid_manifest (str n) = Some [''patch_0.png''] \<and>
           set (map fst (glob_png (Some (Dir [(''patch_0.png'', File good_patch),
                                               (''notes.txt'', File good_patch)])))) = set [''patch_0.png''] \<and>
           (\<forall>e \<in> set (glob_png (Some (Dir [(''patch_0.png'', File good_patch),
                                               (''notes.txt'', File good_patch)]))). valid_patch (snd e))"
    unfolding range_cases
    by (simp add: valid_tree_def valid_manifest_def classification_file_def case_folder_def
          case_str_simps str_digits matches_png_def good_patch_def)
  have h7': "list_all unit_interval (map snd half_scores)"
    using h7 by (simp add: list_all_iff)
  show ?thesis
    using runtime_contracts h3 h6 h7'
      valid_archive_succeeds [where rt = sorted_runtime and fs = "disk valid_tree"
          and archive_path = "''submission.zip''" and tempdir = valid_tree
          and f = "Content (Loaded (PyDict half_scores)) Not_an_image"
          and predictions = half_scores and manifest = "Some valid_manifest"
          and all_expected_patches = valid_manifest
          and entries = "\<lambda>n. [(''patch_0.png'', File good_patch), (''notes.txt'', File good_patch)]"
          and names = "\<lambda>n. [''patch_0.png'']",
        OF runtime_contracts h3 h4 h5 h6 h7 refl h9]
    by simp
qed

text \<open>
  C6. A classification with exactly the expected keys and a score in [0, 1] for each
  has more than two entries and no finding. The script then calls \<open>roc_auc_score\<close> on
  the dummy labels and the scores, whatever that function is: what the check prints is
  the error line with the message of the exception if the call raises, and the SUCCESS
  line if it returns. The call is made inside the contract of the metric: both classes
  are among the labels, there are as many scores as labels and every score is a number
  in [0, 1]. So a metric that keeps its contract returns, and the SUCCESS line is
  printed.
\<close>

theorem valid_classification_succeeds:
  assumes "enumerates (set_iter rt)"
    and "map_of tempdir ''classification.json'' = Some (File f)"
    and "as_json f = Loaded (PyDict predictions)"
    and "set (map fst predictions) = expected_keys"
    and "\<forall>v \<in> set (map snd predictions). unit_interval v"
  shows "2 < length predictions \<and>
         check_classification rt tempdir =
           (case roc_auc_score rt (dummy_gt (length predictions)) (map snd predictions) of
              Some e \<Rightarrow> ([Auc_error e], Inr True)
            | None \<Rightarrow> ([Classification_valid], Inr False)) \<and>
         0 \<in> set (dummy_gt (length predictions)) \<and>
         1 \<in> set (dummy_gt (length predictions)) \<and>
         set (dummy_gt (length predictions)) \<subseteq> {0, 1} \<and>
         length (dummy_gt (length predictions)) = length (map snd predictions) \<and>
         (auc_contract (roc_auc_score rt) \<longrightarrow>
            roc_auc_score rt (dummy_gt (length predictions)) (map snd predictions) = None \<and>
            check_classification rt tempdir = ([Classification_valid], Inr False))"
proof -
  have k: "fst ` set predictions = expected_keys" using assms(4) by simp
  have v: "\<forall>v \<in> snd ` set predictions. unit_interval v" using assms(5) by simp
  have l: "2 < length predictions" using k by (intro more_than_two) simp
  then have "2 \<le> length predictions" by simp
  note g = dummy_gt_classes [OF this]
  note p = check_predictions_valid [OF assms(1) k v]
  have c: "check_classification rt tempdir =
           (case roc_auc_score rt (dummy_gt (length predictions)) (map snd predictions) of
              Some e \<Rightarrow> ([Auc_error e], Inr True)
            | None \<Rightarrow> ([Classification_valid], Inr False))"
    unfolding classification_of_file [OF assms(2,3)] p
    by (cases "roc_auc_score rt (dummy_gt (length predictions)) (map snd predictions)") simp_all
  have "roc_auc_score rt (dummy_gt (length predictions)) (map snd predictions) = None \<and>
        check_classification rt tempdir = ([Classification_valid], Inr False)"
    if "auc_contract (roc_auc_score rt)"
  proof -
    have "roc_auc_score rt (dummy_gt (length predictions)) (map snd predictions) = None"
      using that l v by (rule auc_returns)
    then show ?thesis by (simp add: c)
  qed
  note i = this
  have g': "length (dummy_gt (length predictions)) = length (map snd predictions)"
    using g by simp
  from l c g g' i show ?thesis by blast
qed

theorem valid_classification_succeeds_witness:
  "enumerates (set_iter sorted_runtime) \<and> auc_contract (roc_auc_score sorted_runtime) \<and>
   set (map fst half_scores) = expected_keys \<and>
   list_all unit_interval (map snd half_scores) \<and>
   2 < length half_scores \<and>
   check_classification sorted_runtime [classification_file half_scores]
     = ([Classification_valid], Inr False) \<and>
   check_classification (sorted_runtime\<lparr>roc_auc_score := \<lambda>gt scores. Some ''ValueError''\<rparr>)
       [classification_file half_scores]
     = ([Auc_error ''ValueError''], Inr True)"
proof -
  have h1: "enumerates (set_iter (sorted_runtime\<lparr>roc_auc_score := \<lambda>gt scores. Some ''ValueError''\<rparr>))"
    using runtime_contracts(1) by simp
  have h2: "map_of [classification_file half_scores] ''classification.json''
              = Some (File (Content (Loaded (PyDict half_scores)) Not_an_image))"
    by (simp add: classification_file_def)
  have h3: "as_json (Content (Loaded (PyDict half_scores)) Not_an_image) = Loaded (PyDict half_scores)"
    by simp
  have h4: "set (map fst half_scores) = expected_keys"
    by (simp add: half_scores_def expected_keys_def comp_def)
  have h5: "\<forall>v \<in> set (map snd half_scores). unit_interval v"
    by (simp add: half_scores_def)
  have h5': "list_all unit_interval (map snd half_scores)"
    using h5 by (simp add: list_all_iff)
  have a: "check_classification (sorted_runtime\<lparr>roc_auc_score := \<lambda>gt scores. Some ''ValueError''\<rparr>)
             [classification_file half_scores] = ([Auc_error ''ValueError''], Inr True)"
    using valid_classification_succeeds [OF h1 h2 h3 h4 h5] by simp
  have b: "2 < length half_scores \<and>
           check_classification sorted_runtime [classification_file half_scores]
             = ([Classification_valid], Inr False)"
    using runtime_contracts(2) valid_classification_succeeds [OF runtime_contracts(1) h2 h3 h4 h5]
    by blast
  show ?thesis
    using runtime_contracts h4 h5' a b by simp
qed

text \<open>
  C4. With the expected keys and the one further key \<open>ZZZZZZZZ\<close>, whatever the values
  are, the classification check prints the warning that names \<open>ZZZZZZZZ\<close> as the
  unexpected key, sets the flag and does not print its SUCCESS line.
\<close>

theorem extra_key_warned:
  assumes "enumerates (set_iter rt)"
    and "map_of tempdir ''classification.json'' = Some (File f)"
    and "as_json f = Loaded (PyDict predictions)"
    and "set (map fst predictions) = insert ''ZZZZZZZZ'' expected_keys"
  shows "Unexpected_keys [''ZZZZZZZZ''] \<in> set (fst (check_classification rt tempdir)) \<and>
         severity (Unexpected_keys [''ZZZZZZZZ'']) = WARNING \<and>
         Classification_valid \<notin> set (fst (check_classification rt tempdir)) \<and>
         snd (check_classification rt tempdir) = Inr True"
proof -
  define K where "K = insert ''ZZZZZZZZ'' expected_keys"
  have z: "''ZZZZZZZZ'' \<notin> expected_keys"
    by (simp add: expected_keys_def expected_key_list_def)
  have k: "fst ` set predictions = K" using assms(4) by (simp add: K_def)
  have fin: "finite K" by (simp add: K_def finite_expected_keys)
  have "set (set_iter rt K) \<subseteq> fst ` set predictions"
    using enumerates_set [OF assms(1) fin] k by simp
  note vs = check_values_returns [OF this]
  define ls where
    "ls = concat (map (\<lambda>k. fst (check_value k (the (map_of predictions k)))) (set_iter rt K))"
  have b: "balanced (check_values predictions (set_iter rt K))" by (rule balanced_check_values)
  then have f: "\<forall>l \<in> set ls. finding l" by (simp add: vs balanced_def ls_def)
  have "\<not> finding Classification_valid" by (simp add: finding_def)
  with f have n: "Classification_valid \<notin> set ls" by blast
  have "check_predictions rt (PyDict predictions) = (Unexpected_keys [''ZZZZZZZZ''] # ls, Inr True)"
    by (simp add: k K_def [symmetric] vs ls_def [symmetric] returns_def
          check_keys_extra [OF assms(1) z, folded K_def])
  then have "check_classification rt tempdir = (Unexpected_keys [''ZZZZZZZZ''] # ls, Inr True)"
    by (simp add: classification_of_file [OF assms(2,3)])
  with n show ?thesis by simp
qed

theorem extra_key_warned_witness:
  "enumerates (set_iter sorted_runtime) \<and>
   set (map fst ((''ZZZZZZZZ'', PyInt 1) # half_scores)) = insert ''ZZZZZZZZ'' expected_keys \<and>
   Unexpected_keys [''ZZZZZZZZ''] \<in>
     set (fst (check_classification sorted_runtime
                 [classification_file ((''ZZZZZZZZ'', PyInt 1) # half_scores)])) \<and>
   Classification_valid \<notin>
     set (fst (check_classification sorted_runtime
                 [classification_file ((''ZZZZZZZZ'', PyInt 1) # half_scores)]))"
proof -
  have h2: "map_of [classification_file ((''ZZZZZZZZ'', PyInt 1) # half_scores)] ''classification.json''
              = Some (File (Content (Loaded (PyDict ((''ZZZZZZZZ'', PyInt 1) # half_scores))) Not_an_image))"
    by (simp add: classification_file_def)
  have h3: "as_json (Content (Loaded (PyDict ((''ZZZZZZZZ'', PyInt 1) # half_scores))) Not_an_image)
              = Loaded (PyDict ((''ZZZZZZZZ'', PyInt 1) # half_scores))"
    by simp
  have h4: "set (map fst ((''ZZZZZZZZ'', PyInt 1) # half_scores)) = insert ''ZZZZZZZZ'' expected_keys"
    by (simp add: half_scores_def expected_keys_def comp_def)
  show ?thesis
    using runtime_contracts(1) h4 extra_key_warned [OF runtime_contracts(1) h2 h3 h4]
    by simp
qed

text \<open>
  C9. A boolean value passes both tests of the value loop: \<open>bool\<close> is a subclass of
  \<open>int\<close>, and neither \<open>value < 0\<close> nor \<open>value > 1\<close> holds of True or False. The loop body
  prints nothing for it and leaves the flag alone.
\<close>

theorem bool_value_accepted:
  "isinstance_int (PyBool b) \<and> \<not> lt_zero (PyBool b) \<and> \<not> gt_one (PyBool b) \<and>
   check_value key (PyBool b) = ([], False)"
  by (simp add: check_value_def)

text \<open>
  C5. A case path that is a regular file fails the test \<open>not case_path.is_dir()\<close> of
  line 119, so the script prints the warning that the folder is missing; the \<open>elif\<close> of
  line 122, which holds the error message for this situation, is never reached.
\<close>

theorem case_file_reported_missing:
  "check_case rt m [(''wns_case_01'', File f)] 1 = ([Folder_missing ''wns_case_01''], Inr True) \<and>
   severity (Folder_missing ''wns_case_01'') = WARNING"
  by (simp add: check_case_def case_str_simps)

text \<open>
  C2. With \<open>a.png\<close> expected and \<open>a.png\<close>, \<open>b.png\<close> present, the warning about unexpected
  patches lists the missing patches, of which there are none, and not \<open>b.png\<close>.
\<close>

theorem unexpected_patches_lists_missing:
  "check_case sorted_runtime [(''1'', [''a.png''])]
     [(''wns_case_01'', Dir [(''a.png'', File good_patch), (''b.png'', File good_patch)])] 1
   = ([Unexpected_patches ''wns_case_01'' []], Inr True)"
  by (simp add: check_case_def check_patch_names_def case_str_simps str_digits matches_png_def
        sorted_runtime_def good_patch_def check_array_def returns_def expected_classes_def
        expected_shape_def insert_Diff_if)

text \<open>
  C3, as stated, fails: an archive without any case folder gets six warnings and no
  error from the segmentation check, and the flag is set, so no SUCCESS line follows.
\<close>

theorem warnings_set_flag:
  "check_segmentation sorted_runtime (Some []) []
   = ([Folder_missing ''wns_case_01'', Folder_missing ''wns_case_02'', Folder_missing ''wns_case_03'',
       Folder_missing ''wns_case_04'', Folder_missing ''wns_case_05'', Folder_missing ''wns_case_06''],
      Inr True) \<and>
   map severity (fst (check_segmentation sorted_runtime (Some []) [])) =
     [WARNING, WARNING, WARNING, WARNING, WARNING, WARNING]"
  unfolding check_segmentation_def range_cases
  by (simp add: check_case_def case_str_simps)

text \<open>
  C3, amended. In both categories the flag is set exactly when an ERROR or a WARNING
  line was printed, and the SUCCESS line of the category is printed exactly when the
  flag is not set.
\<close>

theorem flag_iff_finding:
  "(check_classification rt tempdir = (ls, Inr e) \<longrightarrow>
      e = (\<exists>l \<in> set ls. severity l = ERROR \<or> severity l = WARNING) \<and>
      (Classification_valid \<in> set ls) = (\<not> e)) \<and>
   (check_segmentation rt manifest tempdir = (ls', Inr e') \<longrightarrow>
      e' = (\<exists>l \<in> set ls'. severity l = ERROR \<or> severity l = WARNING) \<and>
      (Segmentation_valid \<in> set ls') = (\<not> e'))"
proof (intro conjI impI)
  assume c: "check_classification rt tempdir = (ls, Inr e)"
  have "e = (\<exists>l \<in> set ls. severity l = ERROR \<or> severity l = WARNING) \<and>
        (Classification_valid \<in> set ls) = (\<not> e)"
    by (rule finish_balanced [OF balanced_classification_body c [unfolded check_classification_def Let_def]])
       simp
  then show "e = (\<exists>l \<in> set ls. severity l = ERROR \<or> severity l = WARNING)"
    and "(Classification_valid \<in> set ls) = (\<not> e)" by simp_all
next
  assume s: "check_segmentation rt manifest tempdir = (ls', Inr e')"
  then obtain m where m: "manifest = Some m"
    by (cases manifest) (auto simp: check_segmentation_def)
  have b: "balanced (for_each (check_case rt m tempdir) [1..<1 + cases])"
    by (rule balanced_for_each) (rule balanced_check_case)
  have "e' = (\<exists>l \<in> set ls'. severity l = ERROR \<or> severity l = WARNING) \<and>
        (Segmentation_valid \<in> set ls') = (\<not> e')"
    by (rule finish_balanced [OF b s [unfolded check_segmentation_def m option.case]]) simp
  then show "e' = (\<exists>l \<in> set ls'. severity l = ERROR \<or> severity l = WARNING)"
    and "(Segmentation_valid \<in> set ls') = (\<not> e')" by simp_all
qed

theorem flag_iff_finding_witness:
  "check_classification sorted_runtime [] = ([Classification_missing], Inr True) \<and>
   check_segmentation sorted_runtime (Some [(''1'', [])]) [(''wns_case_01'', Dir [])]
     = ([Folder_missing ''wns_case_02'', Folder_missing ''wns_case_03'', Folder_missing ''wns_case_04'',
         Folder_missing ''wns_case_05'', Folder_missing ''wns_case_06''], Inr True) \<and>
   True = (\<exists>l \<in> set [Classification_missing]. severity l = ERROR \<or> severity l = WARNING) \<and>
   (Classification_valid \<in> set [Classification_missing]) = (\<not> True)"
proof -
  have c: "check_classification sorted_runtime [] = ([Classification_missing], Inr True)"
    by (simp add: check_classification_def)
  have s: "check_segmentation sorted_runtime (Some [(''1'', [])]) [(''wns_case_01'', Dir [])]
     = ([Folder_missing ''wns_case_02'', Folder_missing ''wns_case_03'', Folder_missing ''wns_case_04'',
         Folder_missing ''wns_case_05'', Folder_missing ''wns_case_06''], Inr True)"
    unfolding check_segmentation_def range_cases
    by (simp add: check_case_def check_patch_names_def case_str_simps str_digits returns_def)
  show ?thesis
    using c s flag_iff_finding [of sorted_runtime "[]" "[Classification_missing]" True
        "Some [(''1'', [])]" "[]" False]
    by simp
qed

text \<open>
  The one exception that line 26 catches. A path whose file makes \<open>ZipFile\<close> raise
  BadZipFile gets the line that names the archive and one ERROR line; neither check
  runs on it, and the run goes on with the archives that follow.
\<close>

lemma bad_zip_skipped:
  assumes "fs p = Bad_zip" and "snd (main rt m fs qs) = None"
  shows "check_archive rt m fs p = ([Checking_archive p, Zip_corrupted], Inr ()) \<and>
         main rt m fs (qs @ p # ps) =
           (fst (main rt m fs qs) @ [Checking_archive p, Zip_corrupted] @ fst (main rt m fs ps),
            snd (main rt m fs ps))"
proof -
  have a: "check_archive rt m fs p = ([Checking_archive p, Zip_corrupted], Inr ())"
    using assms(1) by (simp add: check_archive_def)
  then have "main rt m fs (p # ps) =
      ([Checking_archive p, Zip_corrupted] @ fst (main rt m fs ps), snd (main rt m fs ps))"
    by (simp split: prod.splits)
  with a show ?thesis by (simp add: main_append [OF assms(2)])
qed

lemma bad_zip_skipped_example:
  "main sorted_runtime None (disk []) [''nowhere.zip'', ''broken.zip'', ''gone.zip''] =
     ([Checking_archive ''nowhere.zip'', Archive_not_found,
       Checking_archive ''broken.zip'', Zip_corrupted,
       Checking_archive ''gone.zip'', Archive_not_found], None)"
  by (simp add: disk_def check_archive_def)

text \<open>
  C7. Not every regular file that is no valid ZIP container makes \<open>ZipFile\<close> raise
  BadZipFile. On a file whose end record names a central directory offset outside the
  file, \<open>ZipFile\<close> raises an OSError, which the \<open>except BadZipFile\<close> of line 26 lets
  through: the script prints the line that names the archive, no line about a corrupted
  ZIP file, and ends there, without a look at the archive that follows.
\<close>

theorem unzip_error_ends_run:
  "disk [] ''damaged.zip'' = Unzip_raises OSError \<and>
   check_archive sorted_runtime None (disk []) ''damaged.zip''
     = ([Checking_archive ''damaged.zip''], Inl OSError) \<and>
   main sorted_runtime None (disk []) [''damaged.zip'', ''broken.zip'']
     = ([Checking_archive ''damaged.zip''], Some OSError)"
  by (simp add: disk_def check_archive_def)




text \<open>
  C10, as stated, fails: without the manifest the run over a submission whose
  \<open>classification.json\<close> holds a JSON array ends in the classification check, with the
  AttributeError of line 66, before the segmentation check opens anything.
\<close>

theorem classification_raises_first:
  "check_classification sorted_runtime [classification_array]
   = ([], Inl AttributeError) \<and>
   main sorted_runtime None (disk [classification_array]) [''submission.zip'', ''broken.zip'']
   = ([Checking_archive ''submission.zip''], Some AttributeError)"
  by (simp add: check_classification_def check_archive_def disk_def classification_array_def)

text \<open>
  C10, amended. Without the manifest the process ends with an uncaught exception in the
  first archive that could be extracted: the FileNotFoundError of line 109 when the
  classification check of that archive came to its end, and else the exception that the
  classification check raised. What was printed stops with the lines of that
  classification check; no archive after it is looked at.
\<close>

theorem missing_manifest_ends_run:
  assumes "\<forall>q \<in> set qs. fs q = Not_a_file \<or> fs q = Bad_zip" and "fs p = Extracts tempdir"
  shows "main rt None fs (qs @ p # ps) =
           (fst (main rt None fs qs) @ Checking_archive p # fst (check_classification rt tempdir),
            Some (case snd (check_classification rt tempdir) of
                    Inl x \<Rightarrow> x | Inr e \<Rightarrow> FileNotFoundError))"
proof -
  obtain ls s where c: "check_classification rt tempdir = (ls, s)"
    by (cases "check_classification rt tempdir")
  have "main rt None fs (p # ps) =
          (Checking_archive p # ls, Some (case s of Inl x \<Rightarrow> x | Inr e \<Rightarrow> FileNotFoundError))"
    using assms(2) c by (cases s) (simp_all add: check_archive_def check_segmentation_def)
  then show ?thesis
    using c by (simp add: main_append [OF main_no_extract [OF assms(1)]])
qed

theorem missing_manifest_ends_run_witness:
  "disk [] ''nowhere.zip'' = Not_a_file \<and> disk [] ''broken.zip'' = Bad_zip \<and>
   disk [] ''submission.zip'' = Extracts [] \<and>
   main sorted_runtime None (disk []) ([''nowhere.zip'', ''broken.zip''] @ ''submission.zip'' # [''gone.zip'']) =
     ([Checking_archive ''nowhere.zip'', Archive_not_found,
       Checking_archive ''broken.zip'', Zip_corrupted,
       Checking_archive ''submission.zip'', Classification_missing], Some FileNotFoundError)"
proof -
  have h1: "\<forall>q \<in> set [''nowhere.zip'', ''broken.zip'']. disk [] q = Not_a_file \<or> disk [] q = Bad_zip"
    by (simp add: disk_def)
  have h2: "disk [] ''submission.zip'' = Extracts []" by (simp add: disk_def)
  have c: "check_classification sorted_runtime [] = ([Classification_missing], Inr True)"
    by (simp add: check_classification_def)
  show ?thesis
    using h2 missing_manifest_ends_run [OF h1 h2, of sorted_runtime "[''gone.zip'']"]
    by (simp add: c disk_def check_archive_def)
qed

end
